theory Spec2Isabelle
  imports Main "HOL-Library.Sublist"
begin

section \<open>The ADSIM activity pipeline (main.py)\<close>

text \<open>
  The program is one Python module: \<^verbatim>\<open>fetch_activities\<close> (one HTTP GET, NDJSON parsing),
  \<^verbatim>\<open>transform\<close> (a pandas data frame built from the records), \<^verbatim>\<open>load_to_bigquery\<close> and the
  Flask handler \<^verbatim>\<open>adsim_activity_etl\<close>. Each function is embedded below under its own name.
  What the module obtains from its libraries (the HTTP exchange, \<^verbatim>\<open>json.loads\<close>,
  \<^verbatim>\<open>strftime\<close>, \<^verbatim>\<open>pd.to_datetime\<close>, the BigQuery job) is a parameter of the embedding; the
  pandas operations whose result decides the shape of the frame are written out.

  Text is \<^typ>\<open>string\<close>, each character read as a code point below 256.
\<close>

subsection \<open>Python strings\<close>

text \<open>\<^verbatim>\<open>str(n)\<close> and \<^verbatim>\<open>f"{n}"\<close> for an integer: its decimal digits, with a sign.\<close>

definition digit_char :: "nat \<Rightarrow> char" where
  "digit_char d = ''0123456789'' ! d"

fun str_nat :: "nat \<Rightarrow> string" where
  "str_nat n = (if n < 10 then [digit_char n] else str_nat (n div 10) @ [digit_char (n mod 10)])"

declare str_nat.simps [simp del]

definition str_int :: "int \<Rightarrow> string" where
  "str_int i = (if i < 0 then CHR ''-'' # str_nat (nat (- i)) else str_nat (nat i))"

text \<open>
  \<^verbatim>\<open>str.isspace\<close> on one character: the code points 9 to 13, 28 to 32, 133 and 160 are the
  white space of Python below 256.
\<close>

definition isspace :: "char \<Rightarrow> bool" where
  "isspace c = (let n = (of_char c :: nat) in
     (9 \<le> n \<and> n \<le> 13) \<or> (28 \<le> n \<and> n \<le> 32) \<or> n = 133 \<or> n = 160)"

definition lstrip :: "string \<Rightarrow> string" where
  "lstrip s = dropWhile isspace s"

definition rstrip :: "string \<Rightarrow> string" where
  "rstrip s = rev (dropWhile isspace (rev s))"

text \<open>\<^verbatim>\<open>s.strip()\<close> removes leading and trailing white space.\<close>

definition strip :: "string \<Rightarrow> string" where
  "strip s = rstrip (lstrip s)"

definition newline :: char where
  "newline = CHR 0x0A"

text \<open>
  \<^verbatim>\<open>s.split("\n")\<close>: the pieces between line feeds; the empty string gives one empty
  piece, and a trailing line feed gives a last empty piece.
\<close>

fun split_nl :: "string \<Rightarrow> string list" where
  "split_nl [] = [[]]"
| "split_nl (c # cs) =
     (if c = newline then [] # split_nl cs
      else (case split_nl cs of [] \<Rightarrow> [[c]] | l # ls \<Rightarrow> (c # l) # ls))"

subsection \<open>JSON values and exceptions\<close>

text \<open>
  A parsed JSON value as Python holds it: \<^verbatim>\<open>None\<close>, a bool, an int, a float, a string,
  a list, or a dict (an association list in insertion order, its keys distinct). No
  arithmetic is done on a float, so floats are an uninterpreted type.
\<close>

typedecl pyfloat

datatype json =
    JNull
  | JBool bool
  | JInt int
  | JFloat pyfloat
  | JStr string
  | JArr "json list"
  | JObj "(string \<times> json) list"

text \<open>
  The exceptions of the module. \<^verbatim>\<open>ValueError\<close> is raised by \<^verbatim>\<open>fetch_activities\<close> with a dict
  as its only argument. \<^verbatim>\<open>json.JSONDecodeError\<close> is a subclass of \<^verbatim>\<open>ValueError\<close> whose
  \<^verbatim>\<open>args[0]\<close> is the parser's message. \<^verbatim>\<open>FrameError\<close> stands for a record set on which
  pandas leaves the path embedded here (see \<open>pd_json_normalize\<close>); \<^verbatim>\<open>LoadJobError\<close> is an
  exception of the BigQuery client.
\<close>

datatype exn =
    ValueError json
  | JSONDecodeError string
  | FrameError
  | LoadJobError string

fun is_ValueError :: "exn \<Rightarrow> bool" where
  "is_ValueError (ValueError _) = True"
| "is_ValueError (JSONDecodeError _) = True"
| "is_ValueError _ = False"

fun args0 :: "exn \<Rightarrow> json" where
  "args0 (ValueError p) = p"
| "args0 (JSONDecodeError m) = JStr m"
| "args0 FrameError = JNull"
| "args0 (LoadJobError m) = JStr m"

subsection \<open>fetch_activities\<close>

record request =
  req_url :: string
  req_headers :: "(string \<times> string) list"
  req_params :: "(string \<times> string) list"

record response =
  status_code :: int
  url :: string
  resp_text :: string

text \<open>Lines 20 to 30: the URL, the headers and the query parameters of the one GET.\<close>

definition activity_request :: "string \<Rightarrow> string \<Rightarrow> string \<Rightarrow> int \<Rightarrow> request" where
  "activity_request bearer start_iso end_iso limit =
     \<lparr> req_url = ''https://api.adsim.co/crm-r/api/v2/activity'',
       req_headers = [(''accept'', ''application/x-ndjson''),
                      (''Authorization'', ''Bearer '' @ bearer)],
       req_params = [(''start'', start_iso), (''end'', end_iso),
                     (''ignoreDeleted'', ''true''), (''limit'', str_int limit)] \<rparr>"

text \<open>Lines 34 to 38: the dict the \<^verbatim>\<open>ValueError\<close> carries.\<close>

definition error_payload :: "response \<Rightarrow> json" where
  "error_payload r =
     JObj [(''status'', JStr ''error''),
           (''message'', JStr (str_int (status_code r) @ '' Client Error for URL: '' @ url r)),
           (''response'', JStr (resp_text r))]"

text \<open>
  Line 41: the list comprehension. \<^verbatim>\<open>json.loads\<close> is the parameter \<open>loads\<close>, returning
  the parsed value or the message of its \<^verbatim>\<open>JSONDecodeError\<close>; the first line that does
  not parse raises, and nothing is returned.
\<close>

fun parse_lines :: "(string \<Rightarrow> string + 'r) \<Rightarrow> string list \<Rightarrow> exn + 'r list" where
  "parse_lines loads [] = Inr []"
| "parse_lines loads (l # ls) =
     (if l = [] then parse_lines loads ls
      else (case loads l of
              Inl m \<Rightarrow> Inl (JSONDecodeError m)
            | Inr v \<Rightarrow> (case parse_lines loads ls of
                          Inl e \<Rightarrow> Inl e
                        | Inr vs \<Rightarrow> Inr (v # vs))))"

text \<open>
  \<^verbatim>\<open>fetch_activities\<close>, lines 18 to 42. \<open>get\<close> is \<^verbatim>\<open>requests.get\<close>: the response the
  server gives to the request.
\<close>

definition fetch_activities ::
  "(request \<Rightarrow> response) \<Rightarrow> (string \<Rightarrow> string + 'r) \<Rightarrow> string \<Rightarrow> string \<Rightarrow> string \<Rightarrow> int
     \<Rightarrow> exn + 'r list" where
  "fetch_activities get loads bearer start_iso end_iso limit =
     (let response = get (activity_request bearer start_iso end_iso limit) in
      if status_code response \<noteq> 200 then Inl (ValueError (error_payload response))
      else parse_lines loads (split_nl (strip (resp_text response))))"

subsection \<open>The pandas operations used by transform\<close>

text \<open>
  pandas is a library, so its operations are written out here as pandas 1.3 and later
  perform them on the values this program passes. An activity record is a dict. A frame has
  a row index (here always \<^verbatim>\<open>RangeIndex\<close>, kept as the list of its labels) and labelled
  columns, each with one cell per row. A cell holds a Python object, the missing marker
  \<^verbatim>\<open>NaN\<close>, a timestamp, or \<^verbatim>\<open>NaT\<close>. Numeric dtype coercion (an int column with a missing
  value becomes float) is not followed: a cell keeps the value it was given.
\<close>

type_synonym activity = "(string \<times> json) list"

typedecl timestamp

datatype cell = Val json | NaN | Stamp timestamp | NaT

record dataframe =
  df_index :: "nat list"
  df_columns :: "(string \<times> cell list) list"

text \<open>\<^verbatim>\<open>len(df)\<close> and \<^verbatim>\<open>df.empty\<close> (some axis has length 0).\<close>

definition df_len :: "dataframe \<Rightarrow> nat" where
  "df_len df = length (df_index df)"

definition df_empty :: "dataframe \<Rightarrow> bool" where
  "df_empty df = (df_index df = [] \<or> df_columns df = [])"

text \<open>\<^verbatim>\<open>pd.DataFrame()\<close>.\<close>

definition pd_DataFrame_empty :: dataframe where
  "pd_DataFrame_empty = \<lparr> df_index = [], df_columns = [] \<rparr>"

text \<open>The keys of a list of dicts, each once, in the order they are first seen.\<close>

fun fast_unique :: "string list \<Rightarrow> string list \<Rightarrow> string list" where
  "fast_unique seen [] = seen"
| "fast_unique seen (k # ks) =
     (if k \<in> set seen then fast_unique seen ks else fast_unique (seen @ [k]) ks)"

definition cell_of :: "activity \<Rightarrow> string \<Rightarrow> cell" where
  "cell_of r c = (case map_of r c of Some v \<Rightarrow> Val v | None \<Rightarrow> NaN)"

text \<open>
  A frame from a list of dicts over a given index: the columns are the union of the keys,
  and a dict without a key gives \<^verbatim>\<open>NaN\<close> in that column, in its own row.
\<close>

definition DataFrame_of_dicts :: "nat list \<Rightarrow> activity list \<Rightarrow> dataframe" where
  "DataFrame_of_dicts idx rs =
     \<lparr> df_index = idx,
       df_columns = map (\<lambda>c. (c, map (\<lambda>r. cell_of r c) rs))
                        (fast_unique [] (concat (map (map fst) rs))) \<rparr>"

text \<open>\<^verbatim>\<open>pd.DataFrame(records)\<close> for a non-empty list of dicts.\<close>

definition pd_DataFrame :: "activity list \<Rightarrow> dataframe" where
  "pd_DataFrame records = DataFrame_of_dicts [0..<length records] records"

text \<open>\<^verbatim>\<open>d[k] = v\<close> on a dict: an existing key keeps its place.\<close>

fun dict_set :: "activity \<Rightarrow> string \<Rightarrow> json \<Rightarrow> activity" where
  "dict_set [] k v = [(k, v)]"
| "dict_set ((k', v') # d) k v = (if k' = k then (k, v) # d else (k', v') # dict_set d k v)"

text \<open>\<^verbatim>\<open>{**a, **b}\<close>.\<close>

definition dict_merge :: "activity \<Rightarrow> activity \<Rightarrow> activity" where
  "dict_merge a b = foldl (\<lambda>acc (k, v). dict_set acc k v) a b"

fun is_dict :: "json \<Rightarrow> bool" where
  "is_dict (JObj _) = True"
| "is_dict _ = False"

definition new_key :: "string \<Rightarrow> string \<Rightarrow> string" where
  "new_key key_string key = (if key_string = [] then key else key_string @ ''.'' @ key)"

text \<open>
  \<^verbatim>\<open>_normalise_json\<close> of \<^verbatim>\<open>pandas.io.json._normalize\<close>, with separator \<^verbatim>\<open>.\<close>: a nested dict
  is flattened into keys joined by the separator.
\<close>

fun normalise_json :: "json \<Rightarrow> string \<Rightarrow> activity \<Rightarrow> activity"
  and normalise_items :: "(string \<times> json) list \<Rightarrow> string \<Rightarrow> activity \<Rightarrow> activity" where
  "normalise_json (JObj kvs) key_string nd = normalise_items kvs key_string nd"
| "normalise_json v key_string nd = dict_set nd key_string v"
| "normalise_items [] key_string nd = nd"
| "normalise_items ((key, v) # rest) key_string nd =
     normalise_items rest key_string (normalise_json v (new_key key_string key) nd)"

text \<open>\<^verbatim>\<open>_normalise_json_ordered\<close>: the flat entries first, then the flattened nested ones.\<close>

definition normalise_json_ordered :: "activity \<Rightarrow> activity" where
  "normalise_json_ordered d =
     dict_merge (filter (\<lambda>(k, v). \<not> is_dict v) d)
                (normalise_json (JObj (filter (\<lambda>(k, v). is_dict v) d)) [] [])"

text \<open>
  \<^verbatim>\<open>_simple_json_normalize\<close> on one element of the series: a dict is flattened; anything
  that is neither dict nor list (a missing cell, \<^verbatim>\<open>None\<close>, a scalar) gives the empty dict.
  A list element makes pandas either raise in the frame constructor or build positional
  columns; that path is not followed and is reported as \<open>FrameError\<close>.
\<close>

fun simple_json_normalize :: "cell \<Rightarrow> exn + activity" where
  "simple_json_normalize (Val (JObj d)) = Inr (normalise_json_ordered d)"
| "simple_json_normalize (Val (JArr xs)) = Inl FrameError"
| "simple_json_normalize c = Inr []"

fun normalize_all :: "cell list \<Rightarrow> exn + activity list" where
  "normalize_all [] = Inr []"
| "normalize_all (c # cs) =
     (case simple_json_normalize c of
        Inl e \<Rightarrow> Inl e
      | Inr d \<Rightarrow> (case normalize_all cs of Inl e \<Rightarrow> Inl e | Inr ds \<Rightarrow> Inr (d # ds)))"

text \<open>
  \<^verbatim>\<open>pd.json_normalize(series)\<close>: one row per element of the series, over the index of the
  series.
\<close>

definition pd_json_normalize :: "nat list \<Rightarrow> cell list \<Rightarrow> exn + dataframe" where
  "pd_json_normalize idx vals =
     (case normalize_all vals of Inl e \<Rightarrow> Inl e | Inr ds \<Rightarrow> Inr (DataFrame_of_dicts idx ds))"

text \<open>
  \<^verbatim>\<open>pd.to_datetime(series, errors="coerce")\<close> gives a series over the same index, each
  entry a timestamp or \<^verbatim>\<open>NaT\<close>. Which one is the library's business (the format may be
  inferred from the whole column), so the conversion \<open>conv\<close> is a parameter: the entry at
  a position, given the column.
\<close>

definition pd_to_datetime :: "(cell list \<Rightarrow> nat \<Rightarrow> timestamp option) \<Rightarrow> cell list \<Rightarrow> cell list" where
  "pd_to_datetime conv vals =
     map (\<lambda>i. case conv vals i of Some t \<Rightarrow> Stamp t | None \<Rightarrow> NaT) [0..<length vals]"

text \<open>\<^verbatim>\<open>df[col] = series\<close> for a series over the frame's own index.\<close>

definition set_column :: "dataframe \<Rightarrow> string \<Rightarrow> cell list \<Rightarrow> dataframe" where
  "set_column df col vals =
     df \<lparr> df_columns := map (\<lambda>(n, vs). if n = col then (n, vals) else (n, vs)) (df_columns df) \<rparr>"

text \<open>\<^verbatim>\<open>df.drop(columns=[col])\<close>.\<close>

definition df_drop :: "dataframe \<Rightarrow> string \<Rightarrow> dataframe" where
  "df_drop df col = df \<lparr> df_columns := filter (\<lambda>(n, vs). n \<noteq> col) (df_columns df) \<rparr>"

text \<open>\<^verbatim>\<open>nested_df.columns = [f"{col}_{subcol}" for subcol in nested_df.columns]\<close>.\<close>

definition prefix_columns :: "string \<Rightarrow> dataframe \<Rightarrow> dataframe" where
  "prefix_columns col df = df \<lparr> df_columns := map (\<lambda>(n, vs). (col @ ''_'' @ n, vs)) (df_columns df) \<rparr>"

text \<open>
  \<^verbatim>\<open>pd.concat([a, b], axis=1)\<close>: rows are matched by index label. Equal indexes are kept
  and the columns set side by side; otherwise the result is over the union of the labels
  and a frame without a label gives \<^verbatim>\<open>NaN\<close> there.
\<close>

definition reindex :: "nat list \<Rightarrow> cell list \<Rightarrow> nat list \<Rightarrow> cell list" where
  "reindex src vals tgt =
     map (\<lambda>l. case map_of (zip src vals) l of Some v \<Rightarrow> v | None \<Rightarrow> NaN) tgt"

definition pd_concat_axis1 :: "dataframe \<Rightarrow> dataframe \<Rightarrow> dataframe" where
  "pd_concat_axis1 a b =
     (if df_index a = df_index b then
        \<lparr> df_index = df_index a, df_columns = df_columns a @ df_columns b \<rparr>
      else
        (let idx = df_index a @ filter (\<lambda>l. l \<notin> set (df_index a)) (df_index b) in
         \<lparr> df_index = idx,
           df_columns = map (\<lambda>(n, vs). (n, reindex (df_index a) vs idx)) (df_columns a)
                      @ map (\<lambda>(n, vs). (n, reindex (df_index b) vs idx)) (df_columns b) \<rparr>))"

subsection \<open>transform\<close>

definition date_cols :: "string list" where
  "date_cols = [''startDate'', ''endDate'', ''doneDate'']"

definition nested_cols :: "string list" where
  "nested_cols = [''type'', ''organization'', ''person'', ''user'', ''company'']"

text \<open>Lines 54 and 55: one round of the loop over \<open>date_cols\<close>.\<close>

definition convert_date ::
  "(cell list \<Rightarrow> nat \<Rightarrow> timestamp option) \<Rightarrow> dataframe \<Rightarrow> string \<Rightarrow> dataframe" where
  "convert_date conv df col =
     (case map_of (df_columns df) col of
        None \<Rightarrow> df
      | Some vals \<Rightarrow> set_column df col (pd_to_datetime conv vals))"

text \<open>Lines 60 to 63: one round of the loop over \<open>nested_cols\<close>.\<close>

definition expand_nested :: "dataframe \<Rightarrow> string \<Rightarrow> exn + dataframe" where
  "expand_nested df col =
     (case map_of (df_columns df) col of
        None \<Rightarrow> Inr df
      | Some vals \<Rightarrow>
          (case pd_json_normalize (df_index df) vals of
             Inl e \<Rightarrow> Inl e
           | Inr nested_df \<Rightarrow>
               Inr (pd_concat_axis1 (df_drop df col) (prefix_columns col nested_df))))"

fun expand_all :: "dataframe \<Rightarrow> string list \<Rightarrow> exn + dataframe" where
  "expand_all df [] = Inr df"
| "expand_all df (col # cols) =
     (case expand_nested df col of Inl e \<Rightarrow> Inl e | Inr df' \<Rightarrow> expand_all df' cols)"

text \<open>\<^verbatim>\<open>transform\<close>, lines 44 to 65.\<close>

definition transform ::
  "(cell list \<Rightarrow> nat \<Rightarrow> timestamp option) \<Rightarrow> activity list \<Rightarrow> exn + dataframe" where
  "transform conv records =
     (if records = [] then Inr pd_DataFrame_empty
      else expand_all (foldl (convert_date conv) (pd_DataFrame records) date_cols) nested_cols)"

subsection \<open>load_to_bigquery\<close>

text \<open>
  The warehouse is the parameter \<open>bq\<close>: creating the client, \<^verbatim>\<open>load_table_from_dataframe\<close>
  and \<^verbatim>\<open>job.result()\<close> together either raise or finish with \<^verbatim>\<open>job.output_rows\<close>. The
  function returns, with its result, the calls it made to the warehouse.
\<close>

datatype bq_call = LoadTableFromDataframe dataframe string

definition default_table_id :: string where
  "default_table_id = ''databaseparanaiba.adsim_dataset.activity''"

definition load_to_bigquery ::
  "(dataframe \<Rightarrow> string \<Rightarrow> exn + int) \<Rightarrow> dataframe \<Rightarrow> string \<Rightarrow> bq_call list \<times> (exn + string)" where
  "load_to_bigquery bq df table_id =
     (if df_empty df then ([], Inr ''Sem dados para carregar'')
      else
        (case bq df table_id of
           Inl e \<Rightarrow> ([LoadTableFromDataframe df table_id], Inl e)
         | Inr output_rows \<Rightarrow>
             ([LoadTableFromDataframe df table_id],
              Inr (''Carregado '' @ str_int output_rows @ '' linhas na tabela '' @ table_id))))"

subsection \<open>The handler adsim_activity_etl\<close>

text \<open>
  What one invocation meets: the credential, the clock, the formatting of a datetime, the
  server (its answer to the k-th request made), the JSON parser, the date conversion and
  the warehouse. A datetime is its count of microseconds; \<^verbatim>\<open>timedelta(days=1)\<close> is \<open>day\<close>.
\<close>

record world =
  w_bearer :: string
  w_utcnow :: int
  w_strftime :: "int \<Rightarrow> string"
  w_get :: "nat \<Rightarrow> request \<Rightarrow> response"
  w_loads :: "string \<Rightarrow> string + activity"
  w_to_datetime :: "cell list \<Rightarrow> nat \<Rightarrow> timestamp option"
  w_bq :: "dataframe \<Rightarrow> string \<Rightarrow> exn + int"

definition day :: int where
  "day = 86400000000"

definition batch_size_days :: int where
  "batch_size_days = 1"

text \<open>Lines 89 and 90: \<^verbatim>\<open>strftime("%Y-%m-%dT%H:%M:%S.%f")[:-3] + "Z"\<close>.\<close>

definition iso :: "world \<Rightarrow> int \<Rightarrow> string" where
  "iso w t = take (length (w_strftime w t) - 3) (w_strftime w t) @ ''Z''"

record http_response =
  http_status :: nat
  http_body :: json

datatype outcome = Returned http_response | Raised exn

text \<open>One call of \<open>fetch_activities\<close>: the sub-window and the two strings passed.\<close>

record fetch_call =
  current_start :: int
  current_end :: int
  start_iso :: string
  end_iso :: string

text \<open>
  The loop of lines 87 to 99. \<^verbatim>\<open>except ValueError\<close> also catches a \<^verbatim>\<open>JSONDecodeError\<close>,
  its subclass; the handler then returns \<^verbatim>\<open>jsonify(e.args[0]), 500\<close> at once.
\<close>

function batch_loop ::
  "world \<Rightarrow> int \<Rightarrow> int \<Rightarrow> activity list \<Rightarrow> fetch_call list
     \<Rightarrow> fetch_call list \<times> (outcome + activity list)" where
  "batch_loop w end_date cur all_records calls =
     (if cur < end_date then
        (let cur_end = min (cur + batch_size_days * day) end_date;
             s = iso w cur;
             e = iso w cur_end;
             calls' = calls @ [\<lparr>current_start = cur, current_end = cur_end,
                                start_iso = s, end_iso = e\<rparr>]
         in case fetch_activities (w_get w (length calls)) (w_loads w) (w_bearer w) s e 100 of
              Inl ex \<Rightarrow>
                (calls', Inl (if is_ValueError ex
                              then Returned \<lparr>http_status = 500, http_body = args0 ex\<rparr>
                              else Raised ex))
            | Inr batch_records \<Rightarrow> batch_loop w end_date cur_end (all_records @ batch_records) calls')
      else (calls, Inr all_records))"
  by pat_completeness auto
termination
  by (relation "measure (\<lambda>(w, end_date, cur, all_records, calls). nat (end_date - cur))")
     (auto simp: day_def batch_size_days_def)

declare batch_loop.simps [simp del]

text \<open>
  What an invocation did: its outcome, the fetches made, and the arguments of the calls
  to \<open>transform\<close> and \<open>load_to_bigquery\<close> and to the warehouse.
\<close>

record run =
  run_outcome :: outcome
  run_fetches :: "fetch_call list"
  run_transforms :: "activity list list"
  run_loads :: "dataframe list"
  run_bq :: "bq_call list"

text \<open>\<^verbatim>\<open>adsim_activity_etl\<close>, lines 78 to 104 (the \<^verbatim>\<open>print\<close> is left out).\<close>

definition adsim_activity_etl :: "world \<Rightarrow> run" where
  "adsim_activity_etl w =
     (let end_date = w_utcnow w;
          start_date = end_date - 90 * day
      in case batch_loop w end_date start_date [] [] of
           (calls, Inl out) \<Rightarrow>
             \<lparr> run_outcome = out, run_fetches = calls, run_transforms = [],
               run_loads = [], run_bq = [] \<rparr>
         | (calls, Inr all_records) \<Rightarrow>
             (case transform (w_to_datetime w) all_records of
                Inl ex \<Rightarrow>
                  \<lparr> run_outcome = Raised ex, run_fetches = calls,
                    run_transforms = [all_records], run_loads = [], run_bq = [] \<rparr>
              | Inr df \<Rightarrow>
                  (case load_to_bigquery (w_bq w) df default_table_id of
                     (ops, Inl ex) \<Rightarrow>
                       \<lparr> run_outcome = Raised ex, run_fetches = calls,
                         run_transforms = [all_records], run_loads = [df], run_bq = ops \<rparr>
                   | (ops, Inr load_result) \<Rightarrow>
                       \<lparr> run_outcome = Returned
                           \<lparr> http_status = 200,
                             http_body = JObj [(''status'', JStr ''success''),
                                               (''records_loaded'', JInt (int (df_len df))),
                                               (''message'', JStr load_result)] \<rparr>,
                         run_fetches = calls, run_transforms = [all_records],
                         run_loads = [df], run_bq = ops \<rparr>)))"

subsection \<open>A small parser for the examples\<close>

text \<open>
  The examples need some \<open>loads\<close>. This one accepts the empty object, white space around
  it allowed, and rejects every other line with the message \<^verbatim>\<open>json.loads\<close> gives for a
  line that starts no value.
\<close>

definition toy_loads :: "string \<Rightarrow> string + activity" where
  "toy_loads s = (if filter (\<lambda>c. \<not> isspace c) s = ''{}'' then Inr []
                  else Inl ''Expecting value: line 1 column 1 (char 0)'')"

subsection \<open>Frames over a range index\<close>

text \<open>
  The shape every frame of \<open>transform\<close> has: the index is \<^verbatim>\<open>RangeIndex(n)\<close> and every
  column has \<open>n\<close> cells.
\<close>

definition wf_frame :: "nat \<Rightarrow> dataframe \<Rightarrow> bool" where
  "wf_frame n df =
     (df_index df = [0..<n] \<and> (\<forall>(name, vs) \<in> set (df_columns df). length vs = n))"

subsection \<open>Records for the examples\<close>

definition recs :: "activity list" where
  "recs = [[(''id'', JInt 1),
            (''organization'', JObj [(''id'', JInt 7), (''name'', JStr ''Acme'')]),
            (''startDate'', JStr ''2024-01-01'')],
           [(''id'', JInt 2)]]"

definition acme :: activity where
  "acme = [(''organization'', JObj [(''id'', JInt 7), (''name'', JStr ''Acme'')])]"

(*DEFS-END*)

section \<open>Properties of fetch_activities\<close>

lemma strip_all_space: "\<forall>c\<in>set s. isspace c \<Longrightarrow> strip s = []"
  by (auto simp: strip_def lstrip_def rstrip_def dest: set_dropWhileD)

lemma parse_lines_error: "parse_lines loads ls = Inl e \<Longrightarrow> \<exists>m. e = JSONDecodeError m"
  by (induction ls) (auto split: if_splits sum.splits)

lemma str_int_403: "str_int 403 = ''403''"
  by (simp add: str_int_def str_nat.simps digit_char_def)

text \<open>
  Claim C10. When the response has status 200 and its body is empty or holds only white
  space, \<open>fetch_activities\<close> returns the empty list of records and raises nothing.
\<close>

theorem fetch_blank_body:
  assumes "status_code (get (activity_request bearer s e lim)) = 200"
    and "\<forall>c \<in> set (resp_text (get (activity_request bearer s e lim))). isspace c"
  shows "fetch_activities get loads bearer s e lim = Inr []"
  using assms by (simp add: fetch_activities_def strip_all_space)

theorem fetch_blank_body_witness:
  "fetch_activities (\<lambda>_. \<lparr>status_code = 200, url = ''u'', resp_text = [CHR '' '', newline, CHR '' '']\<rparr>)
     toy_loads ''tok'' ''a'' ''b'' 100 = Inr []"
  by (rule fetch_blank_body) (simp_all add: isspace_def newline_def)

text \<open>
  Claim C6. On a status other than 200, \<open>fetch_activities\<close> raises the \<^verbatim>\<open>ValueError\<close> whose
  payload has the status code at the head of its message, the response's URL verbatim at
  its end, and the raw body as its \<^verbatim>\<open>response\<close> field; no record is returned. On status
  200 no \<^verbatim>\<open>ValueError\<close> with such a payload is raised.
\<close>

theorem fetch_non_200:
  fixes get :: "request \<Rightarrow> response" and loads :: "string \<Rightarrow> string + 'r"
  assumes r: "r = get (activity_request bearer s e lim)"
  shows "(status_code r \<noteq> 200 \<longrightarrow>
            (\<exists>msg. fetch_activities get loads bearer s e lim =
                     Inl (ValueError (JObj [(''status'', JStr ''error''),
                                            (''message'', JStr msg),
                                            (''response'', JStr (resp_text r))]))
                 \<and> prefix (str_int (status_code r)) msg \<and> suffix (url r) msg))
       \<and> (status_code r = 200 \<longrightarrow>
            (\<forall>p. fetch_activities get loads bearer s e lim \<noteq> Inl (ValueError p)))"
proof (intro conjI impI)
  assume "status_code r \<noteq> 200"
  then show "\<exists>msg. fetch_activities get loads bearer s e lim =
                     Inl (ValueError (JObj [(''status'', JStr ''error''),
                                            (''message'', JStr msg),
                                            (''response'', JStr (resp_text r))]))
                 \<and> prefix (str_int (status_code r)) msg \<and> suffix (url r) msg"
    using r by (auto simp: fetch_activities_def error_payload_def suffix_def Let_def)
next
  assume ok: "status_code r = 200"
  show "\<forall>p. fetch_activities get loads bearer s e lim \<noteq> Inl (ValueError p)"
  proof (intro allI notI)
    fix p
    assume "fetch_activities get loads bearer s e lim = Inl (ValueError p)"
    with ok r have "parse_lines loads (split_nl (strip (resp_text r))) = Inl (ValueError p)"
      by (simp add: fetch_activities_def Let_def)
    then show False by (auto dest: parse_lines_error)
  qed
qed

theorem fetch_non_200_witness:
  "fetch_activities (\<lambda>_. \<lparr>status_code = 403, url = ''https://x/y?start=a'', resp_text = ''denied''\<rparr>)
     toy_loads ''tok'' ''a'' ''b'' 100
   = Inl (ValueError (JObj [(''status'', JStr ''error''),
                            (''message'', JStr ''403 Client Error for URL: https://x/y?start=a''),
                            (''response'', JStr ''denied'')]))
   \<and> fetch_activities (\<lambda>_. \<lparr>status_code = 200, url = ''https://x/y?start=a'', resp_text = ''{}''\<rparr>)
       toy_loads ''tok'' ''a'' ''b'' 100 = Inr [[]]"
proof -
  have "fetch_activities (\<lambda>_. \<lparr>status_code = 403, url = ''https://x/y?start=a'', resp_text = ''denied''\<rparr>)
     toy_loads ''tok'' ''a'' ''b'' 100
   = Inl (ValueError (JObj [(''status'', JStr ''error''),
                            (''message'', JStr ''403 Client Error for URL: https://x/y?start=a''),
                            (''response'', JStr ''denied'')]))"
    using fetch_non_200 [OF refl, where get = "\<lambda>_. \<lparr>status_code = 403, url = ''https://x/y?start=a'', resp_text = ''denied''\<rparr>"
        and loads = toy_loads and bearer = "''tok''" and s = "''a''" and e = "''b''" and lim = 100]
    by (auto simp: fetch_activities_def error_payload_def str_int_403 Let_def)
  moreover have "fetch_activities (\<lambda>_. \<lparr>status_code = 200, url = ''https://x/y?start=a'', resp_text = ''{}''\<rparr>)
       toy_loads ''tok'' ''a'' ''b'' 100 = Inr [[]]"
    by (simp add: fetch_activities_def strip_def lstrip_def rstrip_def isspace_def newline_def toy_loads_def)
  ultimately show ?thesis by simp
qed

section \<open>Properties of load_to_bigquery\<close>




section \<open>Properties of transform\<close>

lemma set_fast_unique: "set (fast_unique seen ks) = set seen \<union> set ks"
  by (induction ks arbitrary: seen) auto

lemma wf_DataFrame_of_dicts: "length ds = n \<Longrightarrow> wf_frame n (DataFrame_of_dicts [0..<n] ds)"
  by (auto simp: wf_frame_def DataFrame_of_dicts_def)

lemma normalize_all_length: "normalize_all vals = Inr ds \<Longrightarrow> length ds = length vals"
  by (induction vals arbitrary: ds) (auto split: sum.splits)

lemma map_of_wf: "wf_frame n df \<Longrightarrow> map_of (df_columns df) c = Some vals \<Longrightarrow> length vals = n"
  by (auto simp: wf_frame_def dest!: map_of_SomeD)

lemma wf_convert_date: "wf_frame n df \<Longrightarrow> wf_frame n (convert_date conv df col)"
  by (fastforce simp: wf_frame_def convert_date_def set_column_def pd_to_datetime_def
      split: option.splits if_splits dest!: map_of_SomeD)

lemma wf_foldl_convert: "wf_frame n df \<Longrightarrow> wf_frame n (foldl (convert_date conv) df cols)"
  by (induction cols arbitrary: df) (auto simp: wf_convert_date)

lemma expand_nested_Some:
  assumes "expand_nested df col = Inr df'" "map_of (df_columns df) col = Some vals"
  obtains ds where "normalize_all vals = Inr ds"
    and "df' = pd_concat_axis1 (df_drop df col)
                 (prefix_columns col (DataFrame_of_dicts (df_index df) ds))"
  using assms by (auto simp: expand_nested_def pd_json_normalize_def split: sum.splits)

lemma wf_expand_nested:
  assumes "wf_frame n df" "expand_nested df col = Inr df'"
  shows "wf_frame n df'"
proof (cases "map_of (df_columns df) col")
  case None
  with assms show ?thesis by (simp add: expand_nested_def)
next
  case (Some vals)
  with assms(2) obtain ds where ds: "normalize_all vals = Inr ds"
    and df': "df' = pd_concat_axis1 (df_drop df col)
                      (prefix_columns col (DataFrame_of_dicts (df_index df) ds))"
    by (rule expand_nested_Some)
  have "length ds = n" using ds Some assms(1) by (simp add: normalize_all_length map_of_wf)
  then show ?thesis using assms(1)
    by (auto simp: df' wf_frame_def pd_concat_axis1_def df_drop_def prefix_columns_def
        DataFrame_of_dicts_def)
qed

lemma wf_expand_all: "wf_frame n df \<Longrightarrow> expand_all df cols = Inr df' \<Longrightarrow> wf_frame n df'"
  by (induction cols arbitrary: df) (auto split: sum.splits dest: wf_expand_nested)

lemma wf_dated:
  "wf_frame (length rs) (foldl (convert_date conv) (pd_DataFrame rs) date_cols)"
  by (simp add: wf_foldl_convert pd_DataFrame_def wf_DataFrame_of_dicts)

lemma transform_wf: "transform conv rs = Inr df \<Longrightarrow> wf_frame (length rs) df"
proof (cases "rs = []")
  case True
  assume "transform conv rs = Inr df"
  with True show ?thesis by (auto simp: transform_def pd_DataFrame_empty_def wf_frame_def)
next
  case False
  assume "transform conv rs = Inr df"
  with False have "expand_all (foldl (convert_date conv) (pd_DataFrame rs) date_cols) nested_cols = Inr df"
    by (simp add: transform_def)
  with wf_dated show ?thesis by (rule wf_expand_all)
qed

lemmas transform_eval = transform_def pd_DataFrame_def DataFrame_of_dicts_def cell_of_def
  date_cols_def nested_cols_def convert_date_def set_column_def pd_to_datetime_def
  expand_nested_def pd_json_normalize_def normalise_json_ordered_def dict_merge_def new_key_def
  df_drop_def prefix_columns_def pd_concat_axis1_def upt_rec

lemma recs_transform:
  "transform (\<lambda>_ _. None) recs =
     Inr \<lparr>df_index = [0, 1],
          df_columns = [(''id'', [Val (JInt 1), Val (JInt 2)]),
                        (''startDate'', [NaT, NaT]),
                        (''organization_id'', [Val (JInt 7), NaN]),
                        (''organization_name'', [Val (JStr ''Acme''), NaN])]\<rparr>"
  by (simp add: recs_def transform_eval)

text \<open>
  Claim C3. The frame returned by \<open>transform\<close> has as many rows as there are input records,
  and each of its columns has that many cells, whichever columns were converted or
  expanded.
\<close>

theorem transform_row_count:
  assumes "transform conv rs = Inr df"
  shows "df_len df = length rs \<and> (\<forall>(name, vs) \<in> set (df_columns df). length vs = length rs)"
  using transform_wf [OF assms] by (simp add: wf_frame_def df_len_def)

theorem transform_row_count_witness:
  "\<exists>df. transform (\<lambda>_ _. None) recs = Inr df \<and> df_len df = 2 \<and> length recs = 2"
  using transform_row_count [OF recs_transform] recs_transform by (simp add: recs_def)

lemma nested_not_prefixed: "c \<in> set nested_cols \<Longrightarrow> c @ ''_'' @ sub \<notin> set nested_cols"
  by (auto simp: nested_cols_def)

lemma nested_not_date: "c \<in> set nested_cols \<Longrightarrow> c \<notin> set date_cols"
  by (auto simp: nested_cols_def date_cols_def)

lemma distinct_nested_cols: "distinct nested_cols"
  by (simp add: nested_cols_def)

lemma map_of_keyed: "map_of (map (\<lambda>k. (k, f k)) ks) c = (if c \<in> set ks then Some (f c) else None)"
  by (induction ks) auto

lemma map_of_pd_DataFrame:
  "map_of (df_columns (pd_DataFrame rs)) c =
     (if c \<in> (\<Union>r \<in> set rs. fst ` set r) then Some (map (\<lambda>r. cell_of r c) rs) else None)"
  by (auto simp: pd_DataFrame_def DataFrame_of_dicts_def map_of_keyed set_fast_unique)

lemma map_of_set_column:
  "c \<noteq> col \<Longrightarrow> map_of (map (\<lambda>(n, vs). if n = col then (n, vals) else (n, vs)) cols) c = map_of cols c"
  by (induction cols) auto

lemma map_of_convert_date:
  "c \<noteq> col \<Longrightarrow> map_of (df_columns (convert_date conv df col)) c = map_of (df_columns df) c"
  by (simp add: convert_date_def set_column_def map_of_set_column split: option.splits)

lemma map_of_foldl_convert:
  "c \<notin> set cols \<Longrightarrow> map_of (df_columns (foldl (convert_date conv) df cols)) c = map_of (df_columns df) c"
  by (induction cols arbitrary: df) (auto simp: map_of_convert_date)

lemma map_of_drop:
  "c \<noteq> col \<Longrightarrow> map_of (filter (\<lambda>(n, vs). n \<noteq> col) cols) c = map_of cols c"
  by (induction cols) auto

lemma map_of_prefixed_None:
  "\<forall>sub. c \<noteq> col @ ''_'' @ sub \<Longrightarrow> map_of (map (\<lambda>(n, vs). (col @ ''_'' @ n, vs)) cols) c = None"
  by (induction cols) auto

lemma expand_nested_columns:
  assumes "expand_nested df col = Inr df'" "map_of (df_columns df) col = Some vals"
  obtains ds where "normalize_all vals = Inr ds"
    and "df_columns df' = filter (\<lambda>(n, vs). n \<noteq> col) (df_columns df)
           @ map (\<lambda>(n, vs). (col @ ''_'' @ n, vs)) (df_columns (DataFrame_of_dicts (df_index df) ds))"
proof -
  from assms obtain ds where ds: "normalize_all vals = Inr ds"
    and df': "df' = pd_concat_axis1 (df_drop df col)
                      (prefix_columns col (DataFrame_of_dicts (df_index df) ds))"
    by (rule expand_nested_Some)
  have "df_columns df' = filter (\<lambda>(n, vs). n \<noteq> col) (df_columns df)
           @ map (\<lambda>(n, vs). (col @ ''_'' @ n, vs)) (df_columns (DataFrame_of_dicts (df_index df) ds))"
    by (simp add: df' pd_concat_axis1_def df_drop_def prefix_columns_def DataFrame_of_dicts_def)
  with ds show ?thesis by (rule that)
qed

lemma expand_nested_None:
  "map_of (df_columns df) col = None \<Longrightarrow> expand_nested df col = Inr df"
  by (simp add: expand_nested_def)

lemma expand_nested_keeps_other:
  assumes "expand_nested df col = Inr df'" "c \<noteq> col" "\<forall>sub. c \<noteq> col @ ''_'' @ sub"
  shows "map_of (df_columns df') c = map_of (df_columns df) c"
proof (cases "map_of (df_columns df) col")
  case None
  with assms(1) show ?thesis by (simp add: expand_nested_def)
next
  case (Some vals)
  with assms(1) obtain ds where
    cols: "df_columns df' = filter (\<lambda>(n, vs). n \<noteq> col) (df_columns df)
           @ map (\<lambda>(n, vs). (col @ ''_'' @ n, vs)) (df_columns (DataFrame_of_dicts (df_index df) ds))"
    by (rule expand_nested_columns)
  have 1: "map_of (filter (\<lambda>(n, vs). n \<noteq> col) (df_columns df)) c = map_of (df_columns df) c"
    by (rule map_of_drop [OF assms(2)])
  have 2: "map_of (map (\<lambda>(n, vs). (col @ ''_'' @ n, vs))
             (df_columns (DataFrame_of_dicts (df_index df) ds))) c = None"
    by (rule map_of_prefixed_None [OF assms(3)])
  show ?thesis
    by (simp only: cols map_of_append map_add_def 1 2) (simp split: option.splits)
qed

lemma expand_nested_retains:
  assumes "expand_nested df col = Inr df'" "(name, vs) \<in> set (df_columns df)" "name \<noteq> col"
  shows "(name, vs) \<in> set (df_columns df')"
proof (cases "map_of (df_columns df) col")
  case None
  with assms(1) show ?thesis using assms(2) by (simp add: expand_nested_def)
next
  case (Some vals)
  with assms(1) obtain ds where
    "df_columns df' = filter (\<lambda>(n, vs). n \<noteq> col) (df_columns df)
           @ map (\<lambda>(n, vs). (col @ ''_'' @ n, vs)) (df_columns (DataFrame_of_dicts (df_index df) ds))"
    by (rule expand_nested_columns)
  then show ?thesis using assms(2,3) by auto
qed

lemma expand_nested_new:
  assumes "expand_nested df col = Inr df'" "map_of (df_columns df) col = Some vals"
  shows "\<exists>ds. normalize_all vals = Inr ds \<and>
           (\<forall>sub \<in> set (concat (map (map fst) ds)).
              (col @ ''_'' @ sub, map (\<lambda>d. cell_of d sub) ds) \<in> set (df_columns df'))"
proof -
  from assms obtain ds where ds: "normalize_all vals = Inr ds" and
    cols: "df_columns df' = filter (\<lambda>(n, vs). n \<noteq> col) (df_columns df)
           @ map (\<lambda>(n, vs). (col @ ''_'' @ n, vs)) (df_columns (DataFrame_of_dicts (df_index df) ds))"
    by (rule expand_nested_columns)
  have "\<forall>sub \<in> set (concat (map (map fst) ds)).
              (col @ ''_'' @ sub, map (\<lambda>d. cell_of d sub) ds) \<in> set (df_columns df')"
    by (auto simp: cols DataFrame_of_dicts_def set_fast_unique image_iff)
  with ds show ?thesis by blast
qed

lemma expand_nested_names:
  assumes "expand_nested df col = Inr df'" "name \<in> fst ` set (df_columns df')"
  shows "(name \<in> fst ` set (df_columns df) \<and> name \<noteq> col) \<or> (\<exists>sub. name = col @ ''_'' @ sub)"
proof (cases "map_of (df_columns df) col")
  case None
  then have "col \<notin> fst ` set (df_columns df)" by (simp add: map_of_eq_None_iff)
  moreover from None assms(1) have "df' = df" by (simp add: expand_nested_def)
  ultimately show ?thesis using assms(2) by auto
next
  case (Some vals)
  with assms(1) obtain ds where
    "df_columns df' = filter (\<lambda>(n, vs). n \<noteq> col) (df_columns df)
           @ map (\<lambda>(n, vs). (col @ ''_'' @ n, vs)) (df_columns (DataFrame_of_dicts (df_index df) ds))"
    by (rule expand_nested_columns)
  then show ?thesis using assms(2) by (auto simp: image_iff)
qed

lemma expand_all_retains:
  "expand_all df cols = Inr df' \<Longrightarrow> (name, vs) \<in> set (df_columns df) \<Longrightarrow> name \<notin> set cols
     \<Longrightarrow> (name, vs) \<in> set (df_columns df')"
proof (induction cols arbitrary: df)
  case Nil
  then show ?case by simp
next
  case (Cons col cols)
  from Cons.prems(1) obtain df1 where 1: "expand_nested df col = Inr df1"
    and 2: "expand_all df1 cols = Inr df'"
    by (auto split: sum.splits)
  from 1 Cons.prems(2,3) have "(name, vs) \<in> set (df_columns df1)"
    by (auto intro: expand_nested_retains)
  with 2 Cons.prems(3) show ?case by (auto intro: Cons.IH)
qed

lemma expand_all_names:
  "expand_all df cols = Inr df' \<Longrightarrow> name \<in> fst ` set (df_columns df')
     \<Longrightarrow> (name \<in> fst ` set (df_columns df) \<and> name \<notin> set cols)
         \<or> (\<exists>c \<in> set cols. \<exists>sub. name = c @ ''_'' @ sub)"
proof (induction cols arbitrary: df)
  case Nil
  then show ?case by simp
next
  case (Cons col cols)
  from Cons.prems(1) obtain df1 where 1: "expand_nested df col = Inr df1"
    and 2: "expand_all df1 cols = Inr df'"
    by (auto split: sum.splits)
  from Cons.IH [OF 2 Cons.prems(2)]
  consider "name \<in> fst ` set (df_columns df1)" "name \<notin> set cols"
    | "\<exists>c \<in> set cols. \<exists>sub. name = c @ ''_'' @ sub" by blast
  then show ?case
  proof cases
    case 1
    with expand_nested_names [OF \<open>expand_nested df col = Inr df1\<close> 1(1)] show ?thesis by auto
  next
    case 2
    then show ?thesis by auto
  qed
qed

lemma expand_all_expands:
  assumes "expand_all df cols = Inr df'" "set cols \<subseteq> set nested_cols" "distinct cols"
    "c \<in> set cols" "map_of (df_columns df) c = Some vals"
  shows "\<exists>ds. normalize_all vals = Inr ds \<and>
           (\<forall>sub \<in> set (concat (map (map fst) ds)).
              (c @ ''_'' @ sub, map (\<lambda>d. cell_of d sub) ds) \<in> set (df_columns df'))"
  using assms
proof (induction cols arbitrary: df)
  case Nil
  then show ?case by simp
next
  case (Cons col cols)
  from Cons.prems(1) obtain df1 where 1: "expand_nested df col = Inr df1"
    and 2: "expand_all df1 cols = Inr df'"
    by (auto split: sum.splits)
  show ?case
  proof (cases "c = col")
    case True
    from expand_nested_new [OF 1] Cons.prems(5) True obtain ds where
      ds: "normalize_all vals = Inr ds" and
      new: "\<forall>sub \<in> set (concat (map (map fst) ds)).
              (c @ ''_'' @ sub, map (\<lambda>d. cell_of d sub) ds) \<in> set (df_columns df1)"
      by blast
    have "\<forall>sub \<in> set (concat (map (map fst) ds)).
              (c @ ''_'' @ sub, map (\<lambda>d. cell_of d sub) ds) \<in> set (df_columns df')"
    proof
      fix sub assume "sub \<in> set (concat (map (map fst) ds))"
      with new have "(c @ ''_'' @ sub, map (\<lambda>d. cell_of d sub) ds) \<in> set (df_columns df1)" by blast
      moreover have "c @ ''_'' @ sub \<notin> set cols"
        using Cons.prems(2,4) nested_not_prefixed [of c sub] by auto
      ultimately show "(c @ ''_'' @ sub, map (\<lambda>d. cell_of d sub) ds) \<in> set (df_columns df')"
        using 2 by (rule expand_all_retains [rotated])
    qed
    with ds show ?thesis by blast
  next
    case False
    with Cons.prems(4) have c: "c \<in> set cols" by simp
    have "\<forall>sub. c \<noteq> col @ ''_'' @ sub"
    proof (intro allI notI)
      fix sub assume "c = col @ ''_'' @ sub"
      moreover have "col \<in> set nested_cols" "c \<in> set nested_cols" using Cons.prems(2) c by auto
      ultimately show False using nested_not_prefixed [of col sub] by simp
    qed
    with 1 False have "map_of (df_columns df1) c = map_of (df_columns df) c"
      by (rule expand_nested_keeps_other)
    with Cons.prems(5) have "map_of (df_columns df1) c = Some vals" by simp
    with 2 Cons.prems(2,3) c show ?thesis by (intro Cons.IH) auto
  qed
qed

lemma normalize_all_nth:
  "normalize_all vals = Inr ds \<Longrightarrow> i < length vals \<Longrightarrow> simple_json_normalize (vals ! i) = Inr (ds ! i)"
proof (induction vals arbitrary: ds i)
  case Nil
  then show ?case by simp
next
  case (Cons v vals)
  then show ?case by (cases i) (auto split: sum.splits)
qed

lemma expanded_cell:
  assumes "simple_json_normalize (cell_of r c) = Inr d"
  shows "cell_of d sub = (case map_of r c of
                            Some (JObj d') \<Rightarrow> cell_of (normalise_json_ordered d') sub
                          | _ \<Rightarrow> NaN)"
proof (cases "map_of r c")
  case None
  with assms show ?thesis by (auto simp: cell_of_def)
next
  case (Some v)
  with assms show ?thesis by (cases v) (auto simp: cell_of_def)
qed

lemma transform_expanded_column:
  assumes t: "transform conv rs = Inr df" and c: "c \<in> set nested_cols"
    and j: "j < length rs" and d: "map_of (rs ! j) c = Some (JObj d)"
    and sub: "sub \<in> fst ` set (normalise_json_ordered d)"
  shows "\<exists>vals. (c @ ''_'' @ sub, vals) \<in> set (df_columns df) \<and> length vals = length rs
           \<and> (\<forall>i < length rs. vals ! i =
                 (case map_of (rs ! i) c of
                    Some (JObj d') \<Rightarrow> cell_of (normalise_json_ordered d') sub
                  | _ \<Rightarrow> NaN))"
proof -
  let ?df0 = "foldl (convert_date conv) (pd_DataFrame rs) date_cols"
  let ?col = "map (\<lambda>r. cell_of r c) rs"
  from j have ne: "rs \<noteq> []" by auto
  with t have ea: "expand_all ?df0 nested_cols = Inr df" by (simp add: transform_def)
  from d have "c \<in> fst ` set (rs ! j)" by (force dest!: map_of_SomeD)
  with j have "c \<in> (\<Union>r \<in> set rs. fst ` set r)" by (auto intro!: bexI [of _ "rs ! j"])
  then have "map_of (df_columns ?df0) c = Some ?col"
    using c by (simp add: map_of_foldl_convert nested_not_date map_of_pd_DataFrame)
  from expand_all_expands [OF ea subset_refl distinct_nested_cols c this]
  obtain ds where ds: "normalize_all ?col = Inr ds" and
    new: "\<forall>sub \<in> set (concat (map (map fst) ds)).
              (c @ ''_'' @ sub, map (\<lambda>d. cell_of d sub) ds) \<in> set (df_columns df)"
    by blast
  have len: "length ds = length rs" using normalize_all_length [OF ds] by simp
  have nth: "simple_json_normalize (cell_of (rs ! i) c) = Inr (ds ! i)" if "i < length rs" for i
    using normalize_all_nth [OF ds, of i] that by simp
  from nth [OF j] d have dj: "ds ! j = normalise_json_ordered d" by (simp add: cell_of_def)
  have "ds ! j \<in> set ds" using j len by simp
  with sub dj have "sub \<in> set (concat (map (map fst) ds))" by auto
  with new have "(c @ ''_'' @ sub, map (\<lambda>d. cell_of d sub) ds) \<in> set (df_columns df)" by blast
  moreover have "\<forall>i < length rs. map (\<lambda>d. cell_of d sub) ds ! i =
                 (case map_of (rs ! i) c of
                    Some (JObj d') \<Rightarrow> cell_of (normalise_json_ordered d') sub
                  | _ \<Rightarrow> NaN)"
    using len by (auto simp: expanded_cell [OF nth])
  ultimately show ?thesis using len by (intro exI [of _ "map (\<lambda>d. cell_of d sub) ds"]) simp
qed

lemma transform_drops_nested:
  assumes t: "transform conv rs = Inr df" and c: "c \<in> set nested_cols"
  shows "c \<notin> fst ` set (df_columns df)"
proof (cases "rs = []")
  case True
  with t show ?thesis by (auto simp: transform_def pd_DataFrame_empty_def)
next
  case False
  with t have ea: "expand_all (foldl (convert_date conv) (pd_DataFrame rs) date_cols) nested_cols = Inr df"
    by (simp add: transform_def)
  show ?thesis
  proof
    assume "c \<in> fst ` set (df_columns df)"
    from expand_all_names [OF ea this] c show False using nested_not_prefixed by auto
  qed
qed

lemma simple_json_normalize_ok:
  "\<forall>xs. v \<noteq> Val (JArr xs) \<Longrightarrow> \<exists>d. simple_json_normalize v = Inr d"
  by (cases v rule: simple_json_normalize.cases) auto

lemma normalize_all_ok:
  "\<forall>v \<in> set vals. \<forall>xs. v \<noteq> Val (JArr xs) \<Longrightarrow> \<exists>ds. normalize_all vals = Inr ds"
proof (induction vals)
  case Nil
  then show ?case by simp
next
  case (Cons v vals)
  then obtain d ds where "simple_json_normalize v = Inr d" "normalize_all vals = Inr ds"
    using simple_json_normalize_ok [of v] by auto
  then show ?case by simp
qed

lemma expand_all_succeeds:
  assumes "set cols \<subseteq> set nested_cols" "distinct cols"
    "\<forall>c \<in> set cols. \<forall>vals. map_of (df_columns df) c = Some vals
        \<longrightarrow> (\<exists>ds. normalize_all vals = Inr ds)"
  shows "\<exists>df'. expand_all df cols = Inr df'"
  using assms
proof (induction cols arbitrary: df)
  case Nil
  then show ?case by simp
next
  case (Cons col cols)
  have "\<exists>df1. expand_nested df col = Inr df1"
  proof (cases "map_of (df_columns df) col")
    case None
    then show ?thesis by (simp add: expand_nested_def)
  next
    case (Some vals)
    with Cons.prems(3) obtain ds where "normalize_all vals = Inr ds" by auto
    with Some show ?thesis by (simp add: expand_nested_def pd_json_normalize_def)
  qed
  then obtain df1 where 1: "expand_nested df col = Inr df1" ..
  have "\<forall>c \<in> set cols. \<forall>vals. map_of (df_columns df1) c = Some vals
        \<longrightarrow> (\<exists>ds. normalize_all vals = Inr ds)"
  proof (intro ballI allI impI)
    fix c vals assume c: "c \<in> set cols" and v: "map_of (df_columns df1) c = Some vals"
    from c Cons.prems(2) have ne: "c \<noteq> col" by auto
    have "\<forall>sub. c \<noteq> col @ ''_'' @ sub"
    proof (intro allI notI)
      fix sub assume "c = col @ ''_'' @ sub"
      moreover have "col \<in> set nested_cols" "c \<in> set nested_cols" using Cons.prems(1) c by auto
      ultimately show False using nested_not_prefixed [of col sub] by simp
    qed
    with 1 ne have "map_of (df_columns df1) c = map_of (df_columns df) c"
      by (rule expand_nested_keeps_other)
    with v c Cons.prems(3) show "\<exists>ds. normalize_all vals = Inr ds" by auto
  qed
  with Cons.prems(1,2) have "\<exists>df'. expand_all df1 cols = Inr df'"
    by (intro Cons.IH) auto
  with 1 show ?case by simp
qed

lemma transform_returns:
  assumes "\<forall>r \<in> set rs. \<forall>c \<in> set nested_cols. \<forall>xs. map_of r c \<noteq> Some (JArr xs)"
  shows "\<exists>df. transform conv rs = Inr df"
proof (cases "rs = []")
  case True
  then show ?thesis by (simp add: transform_def)
next
  case False
  let ?df0 = "foldl (convert_date conv) (pd_DataFrame rs) date_cols"
  have "\<forall>c \<in> set nested_cols. \<forall>vals. map_of (df_columns ?df0) c = Some vals
        \<longrightarrow> (\<exists>ds. normalize_all vals = Inr ds)"
  proof (intro ballI allI impI)
    fix c vals assume c: "c \<in> set nested_cols" and "map_of (df_columns ?df0) c = Some vals"
    then have "vals = map (\<lambda>r. cell_of r c) rs"
      by (simp add: map_of_foldl_convert nested_not_date map_of_pd_DataFrame split: if_splits)
    moreover have "\<forall>v \<in> set (map (\<lambda>r. cell_of r c) rs). \<forall>xs. v \<noteq> Val (JArr xs)"
      using assms c by (auto simp: cell_of_def split: option.splits)
    ultimately show "\<exists>ds. normalize_all vals = Inr ds" by (simp add: normalize_all_ok)
  qed
  with expand_all_succeeds [OF subset_refl distinct_nested_cols, of ?df0]
  show ?thesis using False by (simp add: transform_def)
qed


lemma acme_normalised:
  "normalise_json_ordered [(''id'', JInt 7), (''name'', JStr ''Acme'')]
     = [(''id'', JInt 7), (''name'', JStr ''Acme'')]"
  by (simp add: normalise_json_ordered_def dict_merge_def)


text \<open>
  Claim C7. A record whose \<^verbatim>\<open>organization\<close> is the mapping \<^verbatim>\<open>{"id": 7, "name": "Acme"}\<close>
  gets, in its own row, 7 in a column \<^verbatim>\<open>organization_id\<close> and \<^verbatim>\<open>"Acme"\<close> in a column
  \<^verbatim>\<open>organization_name\<close>, and the frame has no column \<^verbatim>\<open>organization\<close>.
\<close>

theorem transform_organization_example:
  assumes t: "transform conv rs = Inr df" and j: "j < length rs"
    and d: "map_of (rs ! j) ''organization'' = Some (JObj [(''id'', JInt 7), (''name'', JStr ''Acme'')])"
  shows "(\<exists>vals. (''organization_id'', vals) \<in> set (df_columns df) \<and> vals ! j = Val (JInt 7))
       \<and> (\<exists>vals. (''organization_name'', vals) \<in> set (df_columns df) \<and> vals ! j = Val (JStr ''Acme''))
       \<and> ''organization'' \<notin> fst ` set (df_columns df)"
proof (intro conjI)
  have c: "''organization'' \<in> set nested_cols" by (simp add: nested_cols_def)
  have "''id'' \<in> fst ` set (normalise_json_ordered [(''id'', JInt 7), (''name'', JStr ''Acme'')])"
    by (simp add: acme_normalised)
  from transform_expanded_column [OF t c j d this] j d
  show "\<exists>vals. (''organization_id'', vals) \<in> set (df_columns df) \<and> vals ! j = Val (JInt 7)"
    by (auto simp: acme_normalised cell_of_def)
  have "''name'' \<in> fst ` set (normalise_json_ordered [(''id'', JInt 7), (''name'', JStr ''Acme'')])"
    by (simp add: acme_normalised)
  from transform_expanded_column [OF t c j d this] j d
  show "\<exists>vals. (''organization_name'', vals) \<in> set (df_columns df) \<and> vals ! j = Val (JStr ''Acme'')"
    by (auto simp: acme_normalised cell_of_def)
  show "''organization'' \<notin> fst ` set (df_columns df)"
    using t c by (rule transform_drops_nested)
qed

lemma acme_transform:
  "transform (\<lambda>_ _. None) [acme] =
     Inr \<lparr>df_index = [0],
          df_columns = [(''organization_id'', [Val (JInt 7)]),
                        (''organization_name'', [Val (JStr ''Acme'')])]\<rparr>"
  by (simp add: acme_def transform_eval)

theorem transform_organization_example_witness:
  "\<exists>df. transform (\<lambda>_ _. None) [acme] = Inr df
     \<and> (\<exists>vals. (''organization_id'', vals) \<in> set (df_columns df) \<and> vals ! 0 = Val (JInt 7))
     \<and> (\<exists>vals. (''organization_name'', vals) \<in> set (df_columns df) \<and> vals ! 0 = Val (JStr ''Acme''))
     \<and> ''organization'' \<notin> fst ` set (df_columns df)"
proof -
  have "map_of ([acme] ! 0) ''organization'' = Some (JObj [(''id'', JInt 7), (''name'', JStr ''Acme'')])"
    by (simp add: acme_def)
  from transform_organization_example [OF acme_transform _ this] acme_transform
  show ?thesis by blast
qed

end
